theory Spec2Isabelle
  imports Complex_Main "HOL-Library.Log_Nat" "HOL-Library.Code_Target_Nat"
begin

section \<open>homebridge-automation-chromecast: the device session lifecycle manager\<close>

text \<open>
  A shallow embedding of \<^verbatim>\<open>index.js\<close> (class \<^verbatim>\<open>AutomationChromecast\<close>).
  The instance fields are a record; every method and every callback the class registers
  is a function from state to state. What the class does to its collaborators (the mDNS
  browser, the castv2 client, the HomeKit services, the logger, the accessory callbacks)
  is appended to a trace of events; the timers of the JavaScript runtime are a list of
  pending entries in the state. An exception that leaves a handler is the value
  \<open>Inl\<close> of a sum type.
\<close>

subsection \<open>JavaScript numbers\<close>

text \<open>
  A JavaScript number is an IEEE 754 double. The finite doubles are modelled by the
  rationals they denote, and an arithmetic operation is the exact operation followed by
  rounding to the nearest double, ties to even (53 bits of precision, least exponent
  \<open>-1074\<close>). Overflow to \<^verbatim>\<open>Infinity\<close> is not modelled: the numbers of this
  program are volume levels between 0 and 1 and percentages between 0 and 100.
\<close>

definition pow2 :: "int \<Rightarrow> rat" where
  "pow2 e = (if 0 \<le> e then 2 ^ nat e else 1 / 2 ^ nat (- e))"

definition round_half_even :: "rat \<Rightarrow> int" where
  "round_half_even q =
     (let f = \<lfloor>q\<rfloor>; r = q - of_int f
      in if r < 1 / 2 then f
         else if 1 / 2 < r then f + 1
         else if even f then f else f + 1)"

definition double_exponent :: "rat \<Rightarrow> int" where
  \<comment> \<open>for \<open>0 < q\<close>: the exponent \<open>e\<close> of the unit in the last place,
      \<open>2 ^ 52 \<le> q / 2 ^ e < 2 ^ 53\<close>, not below \<open>-1074\<close>\<close>
  "double_exponent q =
     (let (p, d) = quotient_of q;
          e0 = bitlen p - bitlen d - 53;
          e = (if pow2 53 \<le> q / pow2 e0 then e0 + 1 else e0)
      in max e (- 1074))"

definition to_double :: "rat \<Rightarrow> rat" where
  "to_double q =
     (if q = 0 then 0
      else let a = \<bar>q\<bar>; e = double_exponent a
           in sgn q * of_int (round_half_even (a / pow2 e)) * pow2 e)"

definition js_div :: "rat \<Rightarrow> rat \<Rightarrow> rat" where
  \<comment> \<open>\<^verbatim>\<open>x / y\<close> for \<open>y \<noteq> 0\<close>\<close>
  "js_div x y = to_double (x / y)"

definition js_mul :: "rat \<Rightarrow> rat \<Rightarrow> rat" where
  \<comment> \<open>\<^verbatim>\<open>x * y\<close>\<close>
  "js_mul x y = to_double (x * y)"

definition math_floor :: "rat \<Rightarrow> int" where
  \<comment> \<open>\<^verbatim>\<open>Math.floor\<close>\<close>
  "math_floor x = \<lfloor>x\<rfloor>"

subsection \<open>Strings\<close>

text \<open>
  \<^verbatim>\<open>String.prototype.toLowerCase\<close> is a built-in of the runtime: it folds every cased
  letter of Unicode, by tables that are no part of this program. The handler that calls
  it takes it as the parameter \<open>lc\<close>, and so do the runs; what is proved holds for every
  \<open>lc\<close>. On a string of ASCII characters the built-in maps \<open>A\<close> to \<open>Z\<close> onto \<open>a\<close> to \<open>z\<close>
  and leaves every other character as it is: \<open>asciiLowerCase\<close> is what the examples, whose
  names are ASCII, pass for it.
\<close>

definition asciiLowerCase_char :: "char \<Rightarrow> char" where
  "asciiLowerCase_char c =
     (let n = (of_char c :: nat) in if 65 \<le> n \<and> n \<le> 90 then char_of (n + 32) else c)"

definition asciiLowerCase :: "string \<Rightarrow> string" where
  "asciiLowerCase str = map asciiLowerCase_char str"

subsection \<open>Payloads of the collaborators\<close>

text \<open>
  An entry of the receiver status's application list. The Cast protocol gives every
  application a string \<^verbatim>\<open>sessionId\<close>; the \<^verbatim>\<open>transportId\<close> may be missing (speaker
  groups).
\<close>

record application =
  appId :: string
  sessionId :: string
  transportId :: "string option"

text \<open>
  The \<^verbatim>\<open>applications\<close> field of a status: missing (\<^verbatim>\<open>undefined\<close>), \<^verbatim>\<open>null\<close>, or a
  list. The \<^verbatim>\<open>volume\<close> field: missing (\<open>None\<close>), an object without \<^verbatim>\<open>level\<close>
  (\<open>Some None\<close>), or an object with a level.
\<close>

datatype applications_field = AppsUndefined | AppsNull | AppsList "application list"

record client_status =
  applications :: applications_field
  status_volume :: "rat option option"

record media_status =
  playerState :: "string option"

record txt_record =
  txt_fn :: string
  txt_md :: "string option"
  txt_id :: "string option"

record device =
  txtRecord :: txt_record
  addresses :: "string list"
  port :: nat

datatype js_error = TypeError

subsection \<open>Timers, events and the instance\<close>

text \<open>
  The three callbacks the class hands to \<^verbatim>\<open>setTimeout\<close>: the retry of
  \<^verbatim>\<open>clientDisconnect\<close>, \<^verbatim>\<open>updateMotionSensor\<close> of \<^verbatim>\<open>setIsCasting\<close>, and the restart of
  \<^verbatim>\<open>detectChromecast\<close> (which closes over its browser).
\<close>

datatype timer_callback = ReconnectRetry | MotionUpdate | DiscoveryRestart nat

text \<open>A pending timer: its handle, its delay in milliseconds, its callback.\<close>

type_synonym timer = "nat \<times> nat \<times> timer_callback"

text \<open>
  What the instance does to the outside. \<^verbatim>\<open>this.log\<close> is an event; \<^verbatim>\<open>this.debug\<close>
  is left out.
\<close>

datatype event =
    Log string
  | LogFound "string option" "nat option"
  | LogConnecting "string option" "nat option"
  | LogSearching string
  | LogClientError string
  | LogMotion bool
  | BrowserCreate nat
  | BrowserStart nat
  | BrowserStop nat
  | ClientCreate nat
  | ClientClose nat
  | ClientConnect nat "string option" "nat option"
  | ClientGetStatus nat
  | ClientJoin nat application
  | ClientSetVolume nat rat
  | MediaGetStatus nat
  | MediaPlay nat
  | MediaPause nat
  | SwitchSet bool
  | MotionSet bool
  | AccessoryCallback

text \<open>
  The fields of the instance, then the runtime around it: the pending timers, the next
  fresh timer handle, client and browser, and the trace. \<open>None\<close> is \<^verbatim>\<open>null\<close>. A client,
  a media session and a browser are identified by a number. \<^verbatim>\<open>reconnectCounter\<close> is
  \<^verbatim>\<open>undefined\<close> before the constructor's reset: that is 0 here, which the guard of
  \<^verbatim>\<open>setDefaultProperties\<close> treats alike.
\<close>

record chromecast =
  chromecastDeviceName :: string
  switchOffDelay :: nat
  chromecastIp :: "string option"
  chromecastPort :: "nat option"
  chromecastClient :: "nat option"
  isCastingStatus :: bool
  castingApplication :: "application option"
  castingMedia :: "nat option"
  volume :: rat
  deviceType :: "string option"
  deviceId :: "string option"
  switchOffDelayTimer :: "nat option"
  reconnectTimer :: "nat option"
  reconnectCounter :: nat
  timers :: "timer list"
  nextTimer :: nat
  nextClient :: nat
  nextBrowser :: nat
  trace :: "event list"

definition emit :: "event \<Rightarrow> chromecast \<Rightarrow> chromecast" where
  "emit e s = s\<lparr>trace := trace s @ [e]\<rparr>"

text \<open>\<^verbatim>\<open>setTimeout(cb, d)\<close> returns the handle \<open>nextTimer s\<close>.\<close>

definition setTimeout :: "timer_callback \<Rightarrow> nat \<Rightarrow> chromecast \<Rightarrow> chromecast" where
  "setTimeout cb d s =
     s\<lparr>timers := timers s @ [(nextTimer s, d, cb)], nextTimer := Suc (nextTimer s)\<rparr>"

text \<open>\<^verbatim>\<open>clearTimeout(h)\<close>; \<^verbatim>\<open>clearTimeout(null)\<close> does nothing.\<close>

definition clearTimeout :: "nat option \<Rightarrow> chromecast \<Rightarrow> chromecast" where
  "clearTimeout ho s =
     (case ho of
        None \<Rightarrow> s
      | Some h \<Rightarrow> s\<lparr>timers := filter (\<lambda>t. fst t \<noteq> h) (timers s)\<rparr>)"

subsection \<open>The methods\<close>

text \<open>\<^verbatim>\<open>resetClient\<close>: close the client if there is one (an exception of \<^verbatim>\<open>close\<close> is
  swallowed); the field keeps the closed client.\<close>

definition resetClient :: "chromecast \<Rightarrow> chromecast" where
  "resetClient s =
     (case chromecastClient s of
        Some c \<Rightarrow> emit (ClientClose c) s
      | None \<Rightarrow> s\<lparr>chromecastClient := None\<rparr>)"

definition setDefaultProperties :: "bool \<Rightarrow> bool \<Rightarrow> chromecast \<Rightarrow> chromecast" where
  "setDefaultProperties resetIpAndPort stopReconnecting s =
     (let s1 = (if resetIpAndPort then s\<lparr>chromecastIp := None, chromecastPort := None\<rparr> else s);
          s2 = resetClient s1;
          s3 = s2\<lparr>isCastingStatus := False, castingApplication := None, castingMedia := None,
                 volume := 0, deviceType := None, deviceId := None,
                 switchOffDelayTimer := None\<rparr>;
          s4 = (if stopReconnecting
                then (if reconnectTimer s3 \<noteq> None then clearTimeout (reconnectTimer s3) s3 else s3)
                else s3);
          s5 = s4\<lparr>reconnectTimer := None\<rparr>
      in if reconnectCounter s5 = 0 then s5\<lparr>reconnectCounter := 0\<rparr> else s5)"

text \<open>\<^verbatim>\<open>updateMotionSensor\<close>, the closure of \<^verbatim>\<open>setIsCasting\<close>: it reads
  \<^verbatim>\<open>this.isCastingStatus\<close> when it runs.\<close>

definition updateMotionSensor :: "chromecast \<Rightarrow> chromecast" where
  "updateMotionSensor s =
     emit (LogMotion (isCastingStatus s)) (emit (MotionSet (isCastingStatus s)) s)"

definition setIsCasting :: "bool \<Rightarrow> chromecast \<Rightarrow> chromecast" where
  "setIsCasting statusBool s =
     (if statusBool \<noteq> isCastingStatus s then
        (let s1 = (if statusBool
                   then (emit (Log ''Chromecast is now playing'') s)\<lparr>isCastingStatus := True\<rparr>
                   else (emit (Log ''Chromecast is now stopped'') s)\<lparr>isCastingStatus := False\<rparr>);
             s2 = emit (SwitchSet (isCastingStatus s1)) s1
         in if \<not> isCastingStatus s2 \<and> switchOffDelay s2 \<noteq> 0
            then (setTimeout MotionUpdate (switchOffDelay s2) s2)
                   \<lparr>switchOffDelayTimer := Some (nextTimer s2)\<rparr>
            else updateMotionSensor
                   (if switchOffDelayTimer s2 \<noteq> None
                    then clearTimeout (switchOffDelayTimer s2) s2 else s2))
      else s)"

text \<open>\<^verbatim>\<open>detectChromecast\<close>: a new browser, the restart timer of 30 minutes, the log line,
  \<^verbatim>\<open>browser.start()\<close>. Its \<^verbatim>\<open>serviceUp\<close> handler is \<open>serviceUp\<close> below.\<close>

definition detectChromecast :: "chromecast \<Rightarrow> chromecast" where
  "detectChromecast s =
     (let b = nextBrowser s;
          s1 = emit (BrowserCreate b) (s\<lparr>nextBrowser := Suc b\<rparr>);
          s2 = setTimeout (DiscoveryRestart b) (30 * 60 * 1000) s1;
          s3 = emit (LogSearching (chromecastDeviceName s2)) s2
      in emit (BrowserStart b) s3)"

definition clientDisconnect :: "bool \<Rightarrow> chromecast \<Rightarrow> chromecast" where
  "clientDisconnect reconnect s =
     (let s1 = emit (Log ''Chromecast connection: disconnected'') s;
          s2 = setIsCasting False s1;
          s3 = setDefaultProperties False True s2
      in if reconnect then
           (if 150 < reconnectCounter s3 then
              detectChromecast
                (emit (Log ''Chromecast reconnection: backoff, searching again for Chromecast'') s3)
            else
              (let s4 = emit (Log ''Waiting 2 seconds before reconnecting'') s3;
                   s5 = clearTimeout (reconnectTimer s4) s4
               in (setTimeout ReconnectRetry 2000 s5)\<lparr>reconnectTimer := Some (nextTimer s5)\<rparr>))
         else s3)"

definition clientError :: "string \<Rightarrow> chromecast \<Rightarrow> chromecast" where
  "clientError err s = clientDisconnect True (emit (LogClientError err) s)"

text \<open>\<^verbatim>\<open>clientConnect\<close>: a new client, its handlers, the log line, \<^verbatim>\<open>connect\<close>. The
  handlers are \<open>processClientStatus\<close> (\<^verbatim>\<open>status\<close>) and \<open>clientError\<close> (\<^verbatim>\<open>error\<close>); the
  callback of \<^verbatim>\<open>connect\<close> is \<open>connectCallback\<close>.\<close>

definition clientConnect :: "chromecast \<Rightarrow> chromecast" where
  "clientConnect s =
     (let c = nextClient s;
          s1 = emit (ClientCreate c) (s\<lparr>chromecastClient := Some c, nextClient := Suc c\<rparr>);
          s2 = emit (LogConnecting (chromecastIp s1) (chromecastPort s1)) s1
      in emit (ClientConnect c (chromecastIp s2) (chromecastPort s2)) s2)"

text \<open>The callback of \<^verbatim>\<open>connect\<close>. \<open>layers\<close> says whether the client has its
  \<^verbatim>\<open>connection\<close>, \<^verbatim>\<open>heartbeat\<close> and \<^verbatim>\<open>receiver\<close>. The handlers it registers are
  \<open>clientDisconnect True\<close> (\<^verbatim>\<open>disconnect\<close> of the connection) and \<open>processClientStatus\<close>
  (\<^verbatim>\<open>status\<close> of the receiver); the callback of \<^verbatim>\<open>getStatus\<close> is \<open>getStatusCallback\<close>.\<close>

definition connectCallback :: "bool \<Rightarrow> chromecast \<Rightarrow> chromecast" where
  "connectCallback layers s =
     (case chromecastClient s of
        Some c \<Rightarrow>
          if layers then
            emit (ClientGetStatus c)
              (emit (Log ''Chromecast connection: connected'') (s\<lparr>reconnectCounter := 0\<rparr>))
          else s
      | None \<Rightarrow> s)"

text \<open>The handler of \<^verbatim>\<open>serviceUp\<close> in \<^verbatim>\<open>detectChromecast\<close>; \<open>lc\<close> is \<^verbatim>\<open>toLowerCase\<close>.\<close>

definition serviceUp :: "(string \<Rightarrow> string) \<Rightarrow> device \<Rightarrow> chromecast \<Rightarrow> chromecast" where
  "serviceUp lc dev s =
     (let txt = txtRecord dev; name = txt_fn txt
      in if lc name = lc (chromecastDeviceName s) then
           (let s1 = setDefaultProperties True True s;
                ipAddress = (case addresses dev of [] \<Rightarrow> None | a # _ \<Rightarrow> Some a);
                s2 = s1\<lparr>chromecastIp := ipAddress, chromecastPort := Some (port dev)\<rparr>;
                s3 = s2\<lparr>deviceType := Some (case txt_md txt of None \<Rightarrow> [] | Some m \<Rightarrow> m),
                       deviceId := txt_id txt\<rparr>;
                s4 = emit (LogFound (chromecastIp s3) (chromecastPort s3)) s3
            in clientConnect s4)
         else s)"

text \<open>\<^verbatim>\<open>processClientStatus\<close>. The status is \<open>None\<close> when it is \<^verbatim>\<open>undefined\<close> or
  \<^verbatim>\<open>null\<close>: the destructuring of its first line throws. \<open>joinThrows\<close> says whether
  \<^verbatim>\<open>join\<close> of the castv2 client throws; the access to \<^verbatim>\<open>join\<close> throws when the client
  is \<^verbatim>\<open>null\<close>. Both are caught. The callback of \<^verbatim>\<open>join\<close> is \<open>joinCallback\<close>.\<close>

definition processClientStatus ::
    "client_status option \<Rightarrow> bool \<Rightarrow> chromecast \<Rightarrow> js_error + chromecast" where
  "processClientStatus status joinThrows s =
     (case status of
        None \<Rightarrow> Inl TypeError
      | Some st \<Rightarrow>
          (let currentApplication =
                 (case applications st of AppsList (a # _) \<Rightarrow> Some a | _ \<Rightarrow> None);
               s1 = (case currentApplication of
                       Some app \<Rightarrow>
                         (let lastMonitoredApplicationStatusId =
                                map_option sessionId (castingApplication s)
                          in if Some (sessionId app) \<noteq> lastMonitoredApplicationStatusId then
                               (let sa = s\<lparr>castingApplication :=
                                            Some (app\<lparr>transportId := Some (sessionId app)\<rparr>)\<rparr>
                                in case chromecastClient sa of
                                     Some c \<Rightarrow>
                                       (let sj = emit (ClientJoin c
                                                   (app\<lparr>transportId := Some (sessionId app)\<rparr>)) sa
                                        in if joinThrows then clientDisconnect True sj else sj)
                                   | None \<Rightarrow> clientDisconnect True sa)
                             else s)
                     | None \<Rightarrow> s\<lparr>castingMedia := None\<rparr>);
               s2 = (if applications st = AppsUndefined then setIsCasting False s1 else s1);
               s3 = (case status_volume st of
                       Some (Some l) \<Rightarrow> s2\<lparr>volume := l\<rparr>
                     | _ \<Rightarrow> s2)
           in Inr s3))"

text \<open>The callback of \<^verbatim>\<open>getStatus\<close> in \<^verbatim>\<open>clientConnect\<close>: the error argument is not
  looked at.\<close>

definition getStatusCallback ::
    "string option \<Rightarrow> client_status option \<Rightarrow> bool \<Rightarrow> chromecast \<Rightarrow> js_error + chromecast" where
  "getStatusCallback err status joinThrows s = processClientStatus status joinThrows s"

definition processMediaStatus :: "media_status option \<Rightarrow> chromecast \<Rightarrow> chromecast" where
  "processMediaStatus status s =
     (case status of
        None \<Rightarrow> s
      | Some st \<Rightarrow>
          (case playerState st of
             None \<Rightarrow> s
           | Some ps \<Rightarrow>
               if ps \<noteq> [] then
                 (if ps = ''PLAYING'' \<or> ps = ''BUFFERING''
                  then setIsCasting True s else setIsCasting False s)
               else s))"

text \<open>The callback of \<^verbatim>\<open>join\<close>: with no media (\<open>None\<close>) \<^verbatim>\<open>media.getStatus\<close> throws. The
  handlers of the media session are \<open>processMediaStatus\<close>.\<close>

definition joinCallback :: "nat option \<Rightarrow> chromecast \<Rightarrow> js_error + chromecast" where
  "joinCallback media s =
     (case media of
        None \<Rightarrow> Inl TypeError
      | Some m \<Rightarrow> Inr ((emit (MediaGetStatus m) s)\<lparr>castingMedia := Some m\<rparr>))"

text \<open>The \<^verbatim>\<open>get\<close> handler of the volume characteristic.\<close>

definition getVolume :: "chromecast \<Rightarrow> int" where
  "getVolume s = math_floor (js_mul (volume s) 100)"

text \<open>\<^verbatim>\<open>setVolume\<close>. \<open>sendThrows\<close> says whether \<^verbatim>\<open>setVolume\<close> of the castv2 client
  throws. When it does not, the client holds the accessory callback and calls it when
  the command completes (\<open>setVolumeDone\<close>).\<close>

definition setVolume :: "int \<Rightarrow> bool \<Rightarrow> chromecast \<Rightarrow> chromecast" where
  "setVolume v sendThrows s =
     (case chromecastClient s of
        Some c \<Rightarrow>
          if sendThrows then emit AccessoryCallback s
          else emit (ClientSetVolume c (js_div (of_int v) 100)) s
      | None \<Rightarrow> s)"

definition setVolumeDone :: "chromecast \<Rightarrow> chromecast" where
  "setVolumeDone s = emit AccessoryCallback s"

definition isCasting :: "chromecast \<Rightarrow> bool" where
  "isCasting s = isCastingStatus s"

definition setCasting :: "bool \<Rightarrow> chromecast \<Rightarrow> chromecast" where
  "setCasting on s =
     (let currentlyCasting = isCastingStatus s;
          s1 = setIsCasting on s
      in case castingMedia s1 of
           None \<Rightarrow> emit AccessoryCallback s1
         | Some m \<Rightarrow>
             emit AccessoryCallback
               (if on \<and> \<not> currentlyCasting then emit (MediaPlay m) s1
                else if \<not> on \<and> currentlyCasting then emit (MediaPause m) s1
                else s1))"

subsection \<open>Timers firing\<close>

text \<open>The retry of \<^verbatim>\<open>clientDisconnect\<close> and the restart of \<^verbatim>\<open>detectChromecast\<close>.\<close>

definition reconnectRetry :: "chromecast \<Rightarrow> chromecast" where
  "reconnectRetry s = clientConnect (s\<lparr>reconnectCounter := reconnectCounter s + 1\<rparr>)"

definition discoveryRestart :: "nat \<Rightarrow> chromecast \<Rightarrow> chromecast" where
  "discoveryRestart b s = detectChromecast (clientDisconnect False (emit (BrowserStop b) s))"

definition runCallback :: "timer_callback \<Rightarrow> chromecast \<Rightarrow> chromecast" where
  "runCallback cb s =
     (case cb of
        ReconnectRetry \<Rightarrow> reconnectRetry s
      | MotionUpdate \<Rightarrow> updateMotionSensor s
      | DiscoveryRestart b \<Rightarrow> discoveryRestart b s)"

text \<open>The pending timer of a handle, if there is one.\<close>

definition pending :: "nat \<Rightarrow> chromecast \<Rightarrow> timer option" where
  "pending h s = find (\<lambda>t. fst t = h) (timers s)"

text \<open>The runtime fires the pending timer \<open>h\<close>: the entry leaves the list and its
  callback runs. A handle that is not pending fires nothing.\<close>

definition timerFires :: "nat \<Rightarrow> chromecast \<Rightarrow> chromecast" where
  "timerFires h s =
     (case pending h s of
        None \<Rightarrow> s
      | Some (_, _, cb) \<Rightarrow> runCallback cb (s\<lparr>timers := filter (\<lambda>t. fst t \<noteq> h) (timers s)\<rparr>))"

subsection \<open>The instance after its constructor\<close>

definition blank :: "string \<Rightarrow> nat \<Rightarrow> chromecast" where
  "blank deviceName delay =
     \<lparr>chromecastDeviceName = deviceName, switchOffDelay = delay,
      chromecastIp = None, chromecastPort = None, chromecastClient = None,
      isCastingStatus = False, castingApplication = None, castingMedia = None,
      volume = 0, deviceType = None, deviceId = None,
      switchOffDelayTimer = None, reconnectTimer = None, reconnectCounter = 0,
      timers = [], nextTimer = 0, nextClient = 0, nextBrowser = 0, trace = []\<rparr>"

definition constructor :: "string \<Rightarrow> nat \<Rightarrow> chromecast" where
  "constructor deviceName delay =
     detectChromecast (setDefaultProperties True False (blank deviceName delay))"

subsection \<open>Runs\<close>

text \<open>
  Everything that can call into the instance after its constructor: an announcement of
  the browser, a timer of the runtime, the events and callbacks of the castv2 client and
  of a media session, and the accessory's handlers. An exception that leaves a handler is
  not caught anywhere: the run ends there. \<open>lc\<close> is the \<^verbatim>\<open>toLowerCase\<close> of the runtime.
\<close>

datatype input =
    ServiceUp device
  | TimerFires nat
  | ClientErrorEvent string
  | ConnectionDisconnect
  | ConnectDone bool
  | ClientStatus "client_status option" bool
  | GetStatusDone "string option" "client_status option" bool
  | JoinDone "nat option"
  | MediaStatus "media_status option"
  | SetVolume int bool
  | SetVolumeDone
  | SetCasting bool

definition step :: "(string \<Rightarrow> string) \<Rightarrow> input \<Rightarrow> chromecast \<Rightarrow> js_error + chromecast" where
  "step lc i s =
     (case i of
        ServiceUp dev \<Rightarrow> Inr (serviceUp lc dev s)
      | TimerFires h \<Rightarrow> Inr (timerFires h s)
      | ClientErrorEvent err \<Rightarrow> Inr (clientError err s)
      | ConnectionDisconnect \<Rightarrow> Inr (clientDisconnect True s)
      | ConnectDone layers \<Rightarrow> Inr (connectCallback layers s)
      | ClientStatus status joinThrows \<Rightarrow> processClientStatus status joinThrows s
      | GetStatusDone err status joinThrows \<Rightarrow> getStatusCallback err status joinThrows s
      | JoinDone media \<Rightarrow> joinCallback media s
      | MediaStatus status \<Rightarrow> Inr (processMediaStatus status s)
      | SetVolume v sendThrows \<Rightarrow> Inr (setVolume v sendThrows s)
      | SetVolumeDone \<Rightarrow> Inr (setVolumeDone s)
      | SetCasting on \<Rightarrow> Inr (setCasting on s))"

fun run :: "(string \<Rightarrow> string) \<Rightarrow> input list \<Rightarrow> chromecast \<Rightarrow> js_error + chromecast" where
  "run lc [] s = Inr s"
| "run lc (i # is) s = (case step lc i s of Inl e \<Rightarrow> Inl e | Inr s' \<Rightarrow> run lc is s')"

subsection \<open>Inputs used in the examples\<close>

definition livingRoom :: device where
  "livingRoom =
     \<lparr>txtRecord = \<lparr>txt_fn = ''Living Room'', txt_md = Some ''Chromecast Audio'',
                   txt_id = Some ''a1b2c3''\<rparr>,
      addresses = [''192.168.1.20''], port = 8009\<rparr>"

definition appA :: application where
  "appA = \<lparr>appId = ''CC1AD845'', sessionId = ''A'', transportId = None\<rparr>"

definition appB :: application where
  "appB = \<lparr>appId = ''CC1AD845'', sessionId = ''B'', transportId = Some ''web-5''\<rparr>"

text \<open>Found, connected, a first status with an application, its media session joined
  and playing.\<close>

definition toPlaying :: "input list" where
  "toPlaying =
     [ServiceUp livingRoom, ConnectDone True,
      GetStatusDone None (Some \<lparr>applications = AppsList [appA], status_volume = None\<rparr>) False,
      JoinDone (Some 0),
      MediaStatus (Some \<lparr>playerState = Some ''PLAYING''\<rparr>)]"

text \<open>The state a run from the constructor ends in (the constructor's state if the run
  ends in an exception).\<close>

definition after :: "(string \<Rightarrow> string) \<Rightarrow> input list \<Rightarrow> string \<Rightarrow> nat \<Rightarrow> chromecast" where
  "after lc is deviceName delay =
     (case run lc is (constructor deviceName delay) of
        Inr s \<Rightarrow> s
      | Inl e \<Rightarrow> constructor deviceName delay)"

subsection \<open>Observations on timers and on the reconnect cycle\<close>

text \<open>The pending retries of \<^verbatim>\<open>clientDisconnect\<close>.\<close>

definition retryTimers :: "chromecast \<Rightarrow> timer list" where
  "retryTimers s = filter (\<lambda>t. snd (snd t) = ReconnectRetry) (timers s)"

text \<open>
  The state of the handles: every handle in use was issued before, and a pending timer
  is a retry exactly when \<^verbatim>\<open>reconnectTimer\<close> holds its handle.
\<close>

definition handlesOk :: "chromecast \<Rightarrow> bool" where
  "handlesOk s \<longleftrightarrow>
     list_all (\<lambda>t. fst t < nextTimer s) (timers s)
     \<and> (case reconnectTimer s of None \<Rightarrow> True | Some h \<Rightarrow> h < nextTimer s)
     \<and> (case switchOffDelayTimer s of None \<Rightarrow> True | Some h \<Rightarrow> h < nextTimer s)
     \<and> list_all (\<lambda>t. (snd (snd t) = ReconnectRetry) = (reconnectTimer s = Some (fst t))) (timers s)"

text \<open>
  A disconnect with reconnect intent in state \<open>s\<close> schedules a retry: afterwards exactly
  one retry is pending, of 2000 ms, under the handle in \<^verbatim>\<open>reconnectTimer\<close>, no browser
  was created, and the firing of that timer adds one to \<^verbatim>\<open>reconnectCounter\<close> and calls
  \<^verbatim>\<open>clientConnect\<close>.
\<close>

definition schedulesRetry :: "chromecast \<Rightarrow> bool" where
  "schedulesRetry s =
     (let s' = clientDisconnect True s
      in case reconnectTimer s' of
           None \<Rightarrow> False
         | Some h \<Rightarrow>
             retryTimers s' = [(h, 2000, ReconnectRetry)]
             \<and> nextBrowser s' = nextBrowser s
             \<and> reconnectCounter (timerFires h s') = reconnectCounter s + 1
             \<and> timerFires h s' = reconnectRetry (s'\<lparr>timers := filter (\<lambda>t. fst t \<noteq> h) (timers s')\<rparr>)
             \<and> retryTimers (timerFires h s') = []
             \<and> trace (timerFires h s') =
                 trace s' @ [ClientCreate (nextClient s),
                             LogConnecting (chromecastIp s) (chromecastPort s),
                             ClientConnect (nextClient s) (chromecastIp s) (chromecastPort s)])"

text \<open>
  A disconnect with reconnect intent in state \<open>s\<close> runs the discovery again: afterwards no
  retry is pending, and \<^verbatim>\<open>detectChromecast\<close> has created and started a browser.
\<close>

definition runsDiscovery :: "chromecast \<Rightarrow> bool" where
  "runsDiscovery s =
     (let s' = clientDisconnect True s
      in retryTimers s' = [] \<and> reconnectTimer s' = None
         \<and> nextBrowser s' = Suc (nextBrowser s)
         \<and> BrowserCreate (nextBrowser s) \<in> set (drop (length (trace s)) (trace s'))
         \<and> last (trace s') = BrowserStart (nextBrowser s))"

text \<open>
  \<open>n\<close> failures in a row: each is a disconnect with reconnect intent, followed by the
  firing of the retry it scheduled (if it scheduled one), whose connection attempt
  fails in turn.
\<close>

fun failures :: "nat \<Rightarrow> chromecast \<Rightarrow> chromecast" where
  "failures 0 s = s"
| "failures (Suc n) s =
     (let s' = clientDisconnect True (failures n s)
      in case reconnectTimer s' of
           None \<Rightarrow> s'
         | Some h \<Rightarrow> timerFires h s')"

text \<open>
  A pending timer the instance can no longer cancel: \<open>t\<close> is pending under the handle
  \<open>h\<close>, which was issued before and which neither \<^verbatim>\<open>switchOffDelayTimer\<close> nor
  \<^verbatim>\<open>reconnectTimer\<close> holds.
\<close>

definition orphaned :: "nat \<Rightarrow> timer \<Rightarrow> chromecast \<Rightarrow> bool" where
  "orphaned h t s \<longleftrightarrow>
     pending h s = Some t \<and> h < nextTimer s
     \<and> switchOffDelayTimer s \<noteq> Some h \<and> reconnectTimer s \<noteq> Some h"

text \<open>The pending updates of the motion sensor.\<close>

definition motionTimers :: "chromecast \<Rightarrow> timer list" where
  "motionTimers s = filter (\<lambda>t. snd (snd t) = MotionUpdate) (timers s)"

text \<open>Paused, then the connection lost, the retry, connected and playing again, paused
  again.\<close>

definition pausedAgain :: "input list" where
  "pausedAgain =
     [TimerFires 2, ConnectDone True,
      GetStatusDone None (Some \<lparr>applications = AppsList [appA], status_volume = None\<rparr>) False,
      JoinDone (Some 1),
      MediaStatus (Some \<lparr>playerState = Some ''PLAYING''\<rparr>),
      MediaStatus (Some \<lparr>playerState = Some ''PAUSED''\<rparr>)]"

section \<open>Properties\<close>

subsection \<open>Basic facts about the casting state\<close>

lemma setIsCasting_isCastingStatus [simp]: "isCastingStatus (setIsCasting b s) = b"
  by (simp add: setIsCasting_def updateMotionSensor_def emit_def setTimeout_def clearTimeout_def Let_def
      split: option.splits)

lemma setIsCasting_castingMedia [simp]: "castingMedia (setIsCasting b s) = castingMedia s"
  by (simp add: setIsCasting_def updateMotionSensor_def emit_def setTimeout_def clearTimeout_def Let_def
      split: option.splits)

lemma setIsCasting_same [simp]: "isCastingStatus s = b \<Longrightarrow> setIsCasting b s = s"
  by (simp add: setIsCasting_def)

subsection \<open>The status handlers\<close>

text \<open>
  C2. A device status whose \<^verbatim>\<open>applications\<close> field is missing leaves \<^verbatim>\<open>isCastingStatus\<close>
  false, whatever it was before (and the media session cleared). A device status whose
  \<^verbatim>\<open>applications\<close> is the empty list clears the media session and leaves
  \<^verbatim>\<open>isCastingStatus\<close> as it was.
\<close>

theorem status_applications_absent_or_empty:
  "(\<exists>s'. processClientStatus (Some (st\<lparr>applications := AppsUndefined\<rparr>)) joinThrows s = Inr s'
         \<and> \<not> isCastingStatus s' \<and> castingMedia s' = None)
   \<and> (\<exists>s'. processClientStatus (Some (st\<lparr>applications := AppsList []\<rparr>)) joinThrows s = Inr s'
         \<and> castingMedia s' = None \<and> isCastingStatus s' = isCastingStatus s)"
  by (simp add: processClientStatus_def Let_def split: option.splits)

text \<open>
  C3, as the claim states it, fails: a media status without \<^verbatim>\<open>playerState\<close> leaves a
  playing instance playing.
\<close>

theorem media_status_without_player_state_keeps_casting:
  "isCastingStatus (after asciiLowerCase toPlaying ''living room'' 0)
   \<and> isCastingStatus
        (processMediaStatus (Some \<lparr>playerState = None\<rparr>) (after asciiLowerCase toPlaying ''living room'' 0))"
  by code_simp

text \<open>
  C3, amended. A media status with a non-empty \<^verbatim>\<open>playerState\<close> sets the casting state:
  true for \<^verbatim>\<open>PLAYING\<close> and \<^verbatim>\<open>BUFFERING\<close>, false for every other value. A media status
  whose \<^verbatim>\<open>playerState\<close> is missing or the empty string, and a missing media status,
  change nothing.
\<close>

theorem processMediaStatus_casting:
  "isCastingStatus (processMediaStatus (Some \<lparr>playerState = Some ps\<rparr>) s)
     = (if ps = [] then isCastingStatus s else ps = ''PLAYING'' \<or> ps = ''BUFFERING'')
   \<and> processMediaStatus (Some \<lparr>playerState = Some []\<rparr>) s = s
   \<and> processMediaStatus (Some \<lparr>playerState = None\<rparr>) s = s
   \<and> processMediaStatus None s = s"
  by (simp add: processMediaStatus_def)

text \<open>
  C9. \<^verbatim>\<open>processClientStatus\<close> throws on a missing status, and so does the callback of the
  status query after connecting, which hands its status on whatever its error argument
  is: the result is an exception, not a state. On a status that is an object the handler
  returns a state.
\<close>

theorem processClientStatus_requires_status:
  "processClientStatus None joinThrows s = Inl TypeError
   \<and> getStatusCallback err None joinThrows s = Inl TypeError
   \<and> (\<exists>s'. processClientStatus (Some st) joinThrows s = Inr s')
   \<and> getStatusCallback err (Some st) joinThrows s = processClientStatus (Some st) joinThrows s"
  by (simp add: processClientStatus_def getStatusCallback_def Let_def)

subsection \<open>The volume\<close>

text \<open>
  C5 fails on the code: before the first connection there is no client, and
  \<^verbatim>\<open>setVolume\<close> then does nothing at all; the accessory callback is not called.
\<close>

theorem setVolume_without_client:
  "chromecastClient (constructor ''Living Room'' 0) = None
   \<and> setVolume 50 False (constructor ''Living Room'' 0) = constructor ''Living Room'' 0
   \<and> AccessoryCallback \<notin> set (trace (setVolume 50 False (constructor ''Living Room'' 0)))"
  by code_simp

text \<open>
  C8 fails on the code: after \<^verbatim>\<open>setVolume(29)\<close>, which sends the level \<^verbatim>\<open>29 / 100\<close>, and
  a status reporting that level, the getter returns 28: the double \<^verbatim>\<open>0.29 * 100\<close> is
  \<^verbatim>\<open>28.999999999999996\<close>.
\<close>

theorem volume_round_trip_29:
  "(case run asciiLowerCase (toPlaying @ [SetVolume 29 False,
                ClientStatus (Some \<lparr>applications = AppsList [appA],
                                     status_volume = Some (Some (js_div 29 100))\<rparr>) False])
           (constructor ''living room'' 0) of
      Inr s \<Rightarrow> ClientSetVolume 0 (js_div 29 100) \<in> set (trace s)
               \<and> volume s = js_div 29 100 \<and> getVolume s = 28
    | Inl e \<Rightarrow> False)"
  by code_simp

text \<open>With a client, \<^verbatim>\<open>setVolume\<close> sends the level \<^verbatim>\<open>volume / 100\<close>, or calls the
  callback itself when the sending throws.\<close>

lemma setVolume_with_client:
  "chromecastClient s = Some c \<Longrightarrow>
   setVolume v sendThrows s =
     (if sendThrows then emit AccessoryCallback s
      else emit (ClientSetVolume c (js_div (of_int v) 100)) s)"
  by (simp add: setVolume_def)

text \<open>The getter takes the floor: the level 0.567 is shown as 56.\<close>

lemma getVolume_floor_example: "math_floor (js_mul (to_double (567 / 1000)) 100) = 56"
  by code_simp

subsection \<open>The handles of the timers\<close>

lemmas prims = emit_def setTimeout_def clearTimeout_def

lemma handlesOk_iff:
  "handlesOk s \<longleftrightarrow>
     (\<forall>t\<in>set (timers s). fst t < nextTimer s)
     \<and> (\<forall>h. reconnectTimer s = Some h \<longrightarrow> h < nextTimer s)
     \<and> (\<forall>h. switchOffDelayTimer s = Some h \<longrightarrow> h < nextTimer s)
     \<and> (\<forall>t\<in>set (timers s). (snd (snd t) = ReconnectRetry) = (reconnectTimer s = Some (fst t)))"
  by (auto simp: handlesOk_def list_all_iff split: option.splits)

lemma handlesOk_emit [simp]: "handlesOk (emit e s) = handlesOk s"
  by (simp add: handlesOk_iff emit_def)

lemma handlesOk_setIsCasting: "handlesOk s \<Longrightarrow> handlesOk (setIsCasting b s)"
  unfolding handlesOk_iff setIsCasting_def updateMotionSensor_def prims Let_def
  by (auto split: option.splits)

lemma handlesOk_resetClient [simp]: "handlesOk (resetClient s) = handlesOk s"
  by (simp add: handlesOk_iff resetClient_def emit_def split: option.splits)

lemma handlesOk_setDefaultProperties:
  "handlesOk s \<Longrightarrow> handlesOk (setDefaultProperties r True s)"
  unfolding handlesOk_iff setDefaultProperties_def resetClient_def prims Let_def
  by (auto split: option.splits)

lemma handlesOk_detectChromecast: "handlesOk s \<Longrightarrow> handlesOk (detectChromecast s)"
  unfolding handlesOk_iff detectChromecast_def prims Let_def
  by (auto split: option.splits)

lemma setDefaultProperties_retry:
  "handlesOk s \<Longrightarrow> reconnectTimer (setDefaultProperties r True s) = None
     \<and> retryTimers (setDefaultProperties r True s) = []"
  unfolding handlesOk_iff setDefaultProperties_def resetClient_def prims Let_def retryTimers_def
  by (auto simp: filter_empty_conv split: option.splits)

lemma handlesOk_clientDisconnect: "handlesOk s \<Longrightarrow> handlesOk (clientDisconnect r s)"
proof -
  assume a: "handlesOk s"
  let ?s3 = "setDefaultProperties False True (setIsCasting False (emit (Log ''Chromecast connection: disconnected'') s))"
  have h3: "handlesOk ?s3"
    using a by (simp add: handlesOk_setDefaultProperties handlesOk_setIsCasting)
  have r3: "reconnectTimer ?s3 = None"
    using a by (simp add: setDefaultProperties_retry handlesOk_setIsCasting)
  have sched: "handlesOk ((setTimeout ReconnectRetry 2000 (clearTimeout (reconnectTimer (emit e ?s3)) (emit e ?s3)))
                 \<lparr>reconnectTimer := Some (nextTimer (clearTimeout (reconnectTimer (emit e ?s3)) (emit e ?s3)))\<rparr>)" for e
    using h3 r3 unfolding handlesOk_iff prims by (auto split: option.splits)
  show ?thesis
    unfolding clientDisconnect_def Let_def
    using h3 sched by (simp add: handlesOk_detectChromecast)
qed

lemma handlesOk_clientConnect [simp]: "handlesOk (clientConnect s) = handlesOk s"
  by (simp add: handlesOk_iff clientConnect_def emit_def Let_def)

lemma handlesOk_connectCallback [simp]: "handlesOk (connectCallback l s) = handlesOk s"
  by (simp add: handlesOk_iff connectCallback_def emit_def split: option.splits)

lemma handlesOk_serviceUp: "handlesOk s \<Longrightarrow> handlesOk (serviceUp lc dev s)"
proof -
  assume a: "handlesOk s"
  have "handlesOk (setDefaultProperties True True s)"
    using a by (rule handlesOk_setDefaultProperties)
  then have "handlesOk ((setDefaultProperties True True s)\<lparr>chromecastIp := i, chromecastPort := p, deviceType := t, deviceId := d\<rparr>)" for i p t d
    by (simp add: handlesOk_iff)
  then show ?thesis
    using a by (simp add: serviceUp_def Let_def)
qed

lemma handlesOk_processClientStatus:
  "handlesOk s \<Longrightarrow> processClientStatus status jt s = Inr s' \<Longrightarrow> handlesOk s'"
proof -
  assume a: "handlesOk s" and b: "processClientStatus status jt s = Inr s'"
  have upd: "handlesOk x \<Longrightarrow> handlesOk (x\<lparr>castingApplication := ca\<rparr>)"
            "handlesOk x \<Longrightarrow> handlesOk (x\<lparr>castingMedia := cm\<rparr>)"
            "handlesOk x \<Longrightarrow> handlesOk (x\<lparr>volume := v\<rparr>)" for x ca cm v
    by (simp_all add: handlesOk_iff)
  show ?thesis
    using a b unfolding processClientStatus_def Let_def
    by (auto split: option.splits applications_field.splits list.splits if_splits
        intro!: upd handlesOk_setIsCasting handlesOk_clientDisconnect)
qed

lemma handlesOk_castingMedia [simp]: "handlesOk (s\<lparr>castingMedia := m\<rparr>) = handlesOk s"
  by (simp add: handlesOk_iff)

lemma handlesOk_joinCallback:
  "handlesOk s \<Longrightarrow> joinCallback m s = Inr s' \<Longrightarrow> handlesOk s'"
  by (cases m) (auto simp: joinCallback_def)

lemma handlesOk_processMediaStatus: "handlesOk s \<Longrightarrow> handlesOk (processMediaStatus st s)"
  by (simp add: processMediaStatus_def handlesOk_setIsCasting split: option.splits)

lemma handlesOk_setVolume [simp]: "handlesOk (setVolume v t s) = handlesOk s"
  by (simp add: setVolume_def split: option.splits)

lemma handlesOk_setCasting: "handlesOk s \<Longrightarrow> handlesOk (setCasting on s)"
  by (simp add: setCasting_def Let_def handlesOk_setIsCasting split: option.splits)

lemma handlesOk_timerFires: "handlesOk s \<Longrightarrow> handlesOk (timerFires h s)"
proof -
  assume a: "handlesOk s"
  have f: "handlesOk (s\<lparr>timers := filter (\<lambda>t. fst t \<noteq> h) (timers s)\<rparr>)"
    using a by (auto simp: handlesOk_iff)
  have c: "handlesOk x \<Longrightarrow> handlesOk (runCallback cb x)" for x cb
    by (cases cb)
       (simp_all add: runCallback_def reconnectRetry_def discoveryRestart_def updateMotionSensor_def
          handlesOk_detectChromecast handlesOk_clientDisconnect,
        simp add: handlesOk_iff)
  show ?thesis
    using a f c by (simp add: timerFires_def split: option.splits prod.splits)
qed

lemma handlesOk_step: "handlesOk s \<Longrightarrow> step lc i s = Inr s' \<Longrightarrow> handlesOk s'"
  by (cases i)
     (auto simp: step_def clientError_def getStatusCallback_def setVolumeDone_def
        intro: handlesOk_serviceUp handlesOk_timerFires handlesOk_clientDisconnect
          handlesOk_processClientStatus handlesOk_joinCallback handlesOk_processMediaStatus
          handlesOk_setCasting)

lemma handlesOk_run: "handlesOk s \<Longrightarrow> run lc is s = Inr s' \<Longrightarrow> handlesOk s'"
  by (induction "is" arbitrary: s) (auto split: sum.splits dest: handlesOk_step)

lemma handlesOk_constructor: "handlesOk (constructor n d)"
  by (simp add: constructor_def blank_def handlesOk_iff detectChromecast_def setDefaultProperties_def
      resetClient_def prims Let_def)

subsection \<open>What the methods leave alone\<close>

lemma setIsCasting_fields:
  "reconnectCounter (setIsCasting b s) = reconnectCounter s"
  "reconnectTimer (setIsCasting b s) = reconnectTimer s"
  "chromecastIp (setIsCasting b s) = chromecastIp s"
  "chromecastPort (setIsCasting b s) = chromecastPort s"
  "chromecastClient (setIsCasting b s) = chromecastClient s"
  "castingApplication (setIsCasting b s) = castingApplication s"
  "nextClient (setIsCasting b s) = nextClient s"
  "nextBrowser (setIsCasting b s) = nextBrowser s"
  "switchOffDelay (setIsCasting b s) = switchOffDelay s"
  "chromecastDeviceName (setIsCasting b s) = chromecastDeviceName s"
  "length (trace s) \<le> length (trace (setIsCasting b s))"
  by (simp_all add: setIsCasting_def updateMotionSensor_def prims Let_def split: option.splits)

lemma resetClient_fields:
  "reconnectCounter (resetClient s) = reconnectCounter s"
  "reconnectTimer (resetClient s) = reconnectTimer s"
  "chromecastIp (resetClient s) = chromecastIp s"
  "chromecastPort (resetClient s) = chromecastPort s"
  "chromecastClient (resetClient s) = chromecastClient s"
  "nextClient (resetClient s) = nextClient s"
  "nextBrowser (resetClient s) = nextBrowser s"
  "nextTimer (resetClient s) = nextTimer s"
  "timers (resetClient s) = timers s"
  "switchOffDelay (resetClient s) = switchOffDelay s"
  "chromecastDeviceName (resetClient s) = chromecastDeviceName s"
  "trace (resetClient s) = trace s @ (case chromecastClient s of None \<Rightarrow> [] | Some c \<Rightarrow> [ClientClose c])"
  by (simp_all add: resetClient_def emit_def split: option.splits)

lemma setDefaultProperties_fields:
  "reconnectCounter (setDefaultProperties r t s) = reconnectCounter s"
  "reconnectTimer (setDefaultProperties r t s) = None"
  "chromecastIp (setDefaultProperties r t s) = (if r then None else chromecastIp s)"
  "chromecastPort (setDefaultProperties r t s) = (if r then None else chromecastPort s)"
  "chromecastClient (setDefaultProperties r t s) = chromecastClient s"
  "nextClient (setDefaultProperties r t s) = nextClient s"
  "nextBrowser (setDefaultProperties r t s) = nextBrowser s"
  "nextTimer (setDefaultProperties r t s) = nextTimer s"
  "switchOffDelay (setDefaultProperties r t s) = switchOffDelay s"
  "chromecastDeviceName (setDefaultProperties r t s) = chromecastDeviceName s"
  "isCastingStatus (setDefaultProperties r t s) = False"
  "castingApplication (setDefaultProperties r t s) = None"
  "castingMedia (setDefaultProperties r t s) = None"
  "switchOffDelayTimer (setDefaultProperties r t s) = None"
  "volume (setDefaultProperties r t s) = 0"
  "deviceType (setDefaultProperties r t s) = None"
  "deviceId (setDefaultProperties r t s) = None"
  "trace (setDefaultProperties r t s) = trace s @ (case chromecastClient s of None \<Rightarrow> [] | Some c \<Rightarrow> [ClientClose c])"
  "timers (setDefaultProperties r t s) =
     (if t then (case reconnectTimer s of None \<Rightarrow> timers s
                 | Some h \<Rightarrow> filter (\<lambda>x. fst x \<noteq> h) (timers s))
      else timers s)"
  unfolding setDefaultProperties_def Let_def
  by (simp_all add: resetClient_fields clearTimeout_def split: option.splits)

lemma detectChromecast_fields:
  "reconnectCounter (detectChromecast s) = reconnectCounter s"
  "reconnectTimer (detectChromecast s) = reconnectTimer s"
  "chromecastIp (detectChromecast s) = chromecastIp s"
  "chromecastPort (detectChromecast s) = chromecastPort s"
  "chromecastClient (detectChromecast s) = chromecastClient s"
  "nextClient (detectChromecast s) = nextClient s"
  "nextBrowser (detectChromecast s) = Suc (nextBrowser s)"
  "switchOffDelay (detectChromecast s) = switchOffDelay s"
  "chromecastDeviceName (detectChromecast s) = chromecastDeviceName s"
  "isCastingStatus (detectChromecast s) = isCastingStatus s"
  "castingApplication (detectChromecast s) = castingApplication s"
  "castingMedia (detectChromecast s) = castingMedia s"
  "switchOffDelayTimer (detectChromecast s) = switchOffDelayTimer s"
  "trace (detectChromecast s) =
     trace s @ [BrowserCreate (nextBrowser s), LogSearching (chromecastDeviceName s),
                BrowserStart (nextBrowser s)]"
  "timers (detectChromecast s) = timers s @ [(nextTimer s, 30 * 60 * 1000, DiscoveryRestart (nextBrowser s))]"
  "nextTimer (detectChromecast s) = Suc (nextTimer s)"
  by (simp_all add: detectChromecast_def prims Let_def)

lemma emit_fields:
  "reconnectCounter (emit e s) = reconnectCounter s"
  "reconnectTimer (emit e s) = reconnectTimer s"
  "chromecastIp (emit e s) = chromecastIp s"
  "chromecastPort (emit e s) = chromecastPort s"
  "chromecastClient (emit e s) = chromecastClient s"
  "nextClient (emit e s) = nextClient s"
  "nextBrowser (emit e s) = nextBrowser s"
  "nextTimer (emit e s) = nextTimer s"
  "timers (emit e s) = timers s"
  "switchOffDelay (emit e s) = switchOffDelay s"
  "chromecastDeviceName (emit e s) = chromecastDeviceName s"
  "isCastingStatus (emit e s) = isCastingStatus s"
  "castingApplication (emit e s) = castingApplication s"
  "castingMedia (emit e s) = castingMedia s"
  "switchOffDelayTimer (emit e s) = switchOffDelayTimer s"
  "trace (emit e s) = trace s @ [e]"
  by (simp_all add: emit_def)

lemma clientDisconnect_fields:
  "reconnectCounter (clientDisconnect r s) = reconnectCounter s"
  "chromecastIp (clientDisconnect r s) = chromecastIp s"
  "chromecastPort (clientDisconnect r s) = chromecastPort s"
  "chromecastClient (clientDisconnect r s) = chromecastClient s"
  "nextClient (clientDisconnect r s) = nextClient s"
  "isCastingStatus (clientDisconnect r s) = False"
  "castingApplication (clientDisconnect r s) = None"
  "castingMedia (clientDisconnect r s) = None"
  "switchOffDelayTimer (clientDisconnect r s) = None"
  "switchOffDelay (clientDisconnect r s) = switchOffDelay s"
  unfolding clientDisconnect_def Let_def
  by (simp_all add: setDefaultProperties_fields setIsCasting_fields detectChromecast_fields
        emit_fields setTimeout_def clearTimeout_def)

subsection \<open>The reconnect cycle\<close>

lemma clientDisconnect_retry:
  assumes "handlesOk s" and "reconnectCounter s \<le> 150"
  shows "\<exists>s3. handlesOk s3 \<and> retryTimers s3 = [] \<and> nextBrowser s3 = nextBrowser s
           \<and> clientDisconnect True s =
               s3\<lparr>timers := timers s3 @ [(nextTimer s3, 2000, ReconnectRetry)],
                  nextTimer := Suc (nextTimer s3),
                  reconnectTimer := Some (nextTimer s3)\<rparr>"
proof -
  let ?s3 = "setDefaultProperties False True
              (setIsCasting False (emit (Log ''Chromecast connection: disconnected'') s))"
  let ?s4 = "emit (Log ''Waiting 2 seconds before reconnecting'') ?s3"
  have h3: "handlesOk ?s3"
    using assms(1) by (simp add: handlesOk_setDefaultProperties handlesOk_setIsCasting)
  have r3: "reconnectTimer ?s3 = None" "retryTimers ?s3 = []"
    using assms(1) by (simp_all add: setDefaultProperties_retry handlesOk_setIsCasting)
  have c3: "reconnectCounter ?s3 = reconnectCounter s"
    by (simp add: setDefaultProperties_fields setIsCasting_fields emit_fields)
  have b3: "nextBrowser ?s3 = nextBrowser s"
    by (simp add: setDefaultProperties_fields setIsCasting_fields emit_fields)
  have "clientDisconnect True s =
          (setTimeout ReconnectRetry 2000 (clearTimeout (reconnectTimer ?s4) ?s4))
            \<lparr>reconnectTimer := Some (nextTimer (clearTimeout (reconnectTimer ?s4) ?s4))\<rparr>"
    using assms(2) c3 by (simp add: clientDisconnect_def Let_def)
  also have "\<dots> = ?s4\<lparr>timers := timers ?s4 @ [(nextTimer ?s4, 2000, ReconnectRetry)],
                  nextTimer := Suc (nextTimer ?s4),
                  reconnectTimer := Some (nextTimer ?s4)\<rparr>"
    using r3(1) by (simp add: prims)
  finally have e: "clientDisconnect True s =
      ?s4\<lparr>timers := timers ?s4 @ [(nextTimer ?s4, 2000, ReconnectRetry)],
          nextTimer := Suc (nextTimer ?s4), reconnectTimer := Some (nextTimer ?s4)\<rparr>" .
  have "handlesOk ?s4" using h3 by simp
  moreover have "retryTimers ?s4 = []" using r3(2) by (simp add: retryTimers_def emit_def)
  moreover have "nextBrowser ?s4 = nextBrowser s" using b3 by (simp add: emit_def)
  ultimately show ?thesis using e by blast
qed

lemma find_fresh:
  "\<forall>t\<in>set ts. fst t < (n::nat) \<Longrightarrow> find (\<lambda>t. fst t = n) (ts @ [(n, d, cb)]) = Some (n, d, cb)"
  by (induction ts) auto

lemma filter_fresh:
  "\<forall>t\<in>set ts. fst t < (n::nat) \<Longrightarrow> filter (\<lambda>t. fst t \<noteq> n) (ts @ [(n, d, cb)]) = ts"
  by (induction ts) auto

lemma schedulesRetry_holds:
  assumes "handlesOk s" and "reconnectCounter s \<le> 150"
  shows "schedulesRetry s"
proof -
  obtain s3 where h3: "handlesOk s3" and r3: "retryTimers s3 = []"
    and b3: "nextBrowser s3 = nextBrowser s"
    and e: "clientDisconnect True s =
               s3\<lparr>timers := timers s3 @ [(nextTimer s3, 2000, ReconnectRetry)],
                  nextTimer := Suc (nextTimer s3),
                  reconnectTimer := Some (nextTimer s3)\<rparr>"
    using clientDisconnect_retry [OF assms] by blast
  let ?h = "nextTimer s3"
  let ?s' = "clientDisconnect True s"
  have lt: "\<forall>t\<in>set (timers s3). fst t < ?h"
    using h3 by (simp add: handlesOk_iff)
  have rt: "reconnectTimer ?s' = Some ?h" by (simp add: e)
  have ret: "retryTimers ?s' = [(?h, 2000, ReconnectRetry)]"
    using r3 by (simp add: e retryTimers_def)
  have pe: "pending ?h ?s' = Some (?h, 2000, ReconnectRetry)"
    using lt by (simp add: e pending_def find_fresh)
  have fl: "filter (\<lambda>t. fst t \<noteq> ?h) (timers ?s') = timers s3"
    using lt by (auto simp: e filter_id_conv)
  have tf: "timerFires ?h ?s' = reconnectRetry (?s'\<lparr>timers := filter (\<lambda>t. fst t \<noteq> ?h) (timers ?s')\<rparr>)"
    by (simp add: timerFires_def pe runCallback_def)
  have f1: "reconnectCounter (timerFires ?h ?s') = reconnectCounter s + 1"
    unfolding tf by (simp add: reconnectRetry_def clientConnect_def emit_def Let_def clientDisconnect_fields)
  have f2: "retryTimers (timerFires ?h ?s') = []"
    unfolding tf fl using r3 by (simp add: reconnectRetry_def clientConnect_def emit_def Let_def retryTimers_def)
  have f3: "trace (timerFires ?h ?s') =
                 trace ?s' @ [ClientCreate (nextClient s),
                             LogConnecting (chromecastIp s) (chromecastPort s),
                             ClientConnect (nextClient s) (chromecastIp s) (chromecastPort s)]"
    unfolding tf by (simp add: reconnectRetry_def clientConnect_def emit_def Let_def clientDisconnect_fields)
  have nb: "nextBrowser ?s' = nextBrowser s" using b3 by (simp add: e)
  show ?thesis
    unfolding schedulesRetry_def Let_def using rt ret nb tf f1 f2 f3 by simp
qed

lemma runsDiscovery_holds:
  assumes "handlesOk s" and "150 < reconnectCounter s"
  shows "runsDiscovery s"
proof -
  let ?s3 = "setDefaultProperties False True
              (setIsCasting False (emit (Log ''Chromecast connection: disconnected'') s))"
  let ?s4 = "emit (Log ''Chromecast reconnection: backoff, searching again for Chromecast'') ?s3"
  have r3: "reconnectTimer ?s3 = None" "retryTimers ?s3 = []"
    using assms(1) by (simp_all add: setDefaultProperties_retry handlesOk_setIsCasting)
  have c3: "reconnectCounter ?s3 = reconnectCounter s"
    by (simp add: setDefaultProperties_fields setIsCasting_fields emit_fields)
  have b3: "nextBrowser ?s3 = nextBrowser s"
    by (simp add: setDefaultProperties_fields setIsCasting_fields emit_fields)
  have l3: "length (trace s) \<le> length (trace ?s3)"
    using setIsCasting_fields(11) [of "emit (Log ''Chromecast connection: disconnected'') s" False]
    by (simp add: setDefaultProperties_fields emit_fields)
  have e: "clientDisconnect True s = detectChromecast ?s4"
    using assms(2) c3 by (simp add: clientDisconnect_def Let_def)
  have t: "trace (detectChromecast ?s4) =
             trace ?s3 @ [Log ''Chromecast reconnection: backoff, searching again for Chromecast'',
                          BrowserCreate (nextBrowser s), LogSearching (chromecastDeviceName ?s3),
                          BrowserStart (nextBrowser s)]"
    using b3 by (simp add: detectChromecast_fields emit_fields)
  have "retryTimers (detectChromecast ?s4) = []"
    using r3(2) by (simp add: detectChromecast_def prims Let_def retryTimers_def)
  moreover have "reconnectTimer (detectChromecast ?s4) = None"
    using r3(1) by (simp add: detectChromecast_def prims Let_def)
  moreover have "nextBrowser (detectChromecast ?s4) = Suc (nextBrowser s)"
    using b3 by (simp add: detectChromecast_def prims Let_def)
  moreover have "BrowserCreate (nextBrowser s) \<in> set (drop (length (trace s)) (trace (detectChromecast ?s4)))"
    using l3 unfolding t by simp
  moreover have "last (trace (detectChromecast ?s4)) = BrowserStart (nextBrowser s)"
    unfolding t by simp
  ultimately show ?thesis
    unfolding runsDiscovery_def Let_def e by simp
qed

lemma failures_counter:
  assumes "handlesOk s" and "reconnectCounter s = 0"
  shows "k \<le> 151 \<Longrightarrow> handlesOk (failures k s) \<and> reconnectCounter (failures k s) = k"
proof (induction k)
  case 0
  then show ?case using assms by simp
next
  case (Suc k)
  then have ih: "handlesOk (failures k s)" "reconnectCounter (failures k s) = k" and k: "k \<le> 150"
    by simp_all
  have sr: "schedulesRetry (failures k s)"
    using ih k by (simp add: schedulesRetry_holds)
  let ?s' = "clientDisconnect True (failures k s)"
  obtain h where h: "reconnectTimer ?s' = Some h"
    and c: "reconnectCounter (timerFires h ?s') = reconnectCounter (failures k s) + 1"
    using sr unfolding schedulesRetry_def Let_def by (auto split: option.splits)
  have "handlesOk (timerFires h ?s')"
    using ih(1) by (simp add: handlesOk_timerFires handlesOk_clientDisconnect)
  then show ?case
    using h c ih(2) by (simp add: Let_def)
qed

text \<open>
  C1. In every state a run from the constructor reaches: a disconnect with reconnect
  intent at a counter of at most 150 schedules exactly one retry of 2000 ms, whose firing
  adds one to the counter and calls \<^verbatim>\<open>clientConnect\<close>; at a counter above 150 it runs
  \<^verbatim>\<open>detectChromecast\<close> and schedules no retry. From a counter of 0 (a successful
  connection) the failures are counted by the disconnects with reconnect intent, each
  followed by the firing of its retry: before failure \<open>k + 1\<close> the counter is \<open>k\<close>, the
  failures 1 to 151 (among them the 150th) schedule a retry, and after 151 failures the
  next one runs the discovery.
\<close>

theorem reconnect_bound:
  assumes "run lc pre (constructor name delay) = Inr s"
  shows "(reconnectCounter s \<le> 150 \<longrightarrow> schedulesRetry s)
       \<and> (150 < reconnectCounter s \<longrightarrow> runsDiscovery s)
       \<and> (reconnectCounter s = 0 \<longrightarrow>
            (\<forall>k<151. reconnectCounter (failures k s) = k \<and> schedulesRetry (failures k s))
            \<and> reconnectCounter (failures 151 s) = 151 \<and> runsDiscovery (failures 151 s))"
proof -
  have ok: "handlesOk s"
    using assms handlesOk_constructor handlesOk_run by blast
  have a: "reconnectCounter s \<le> 150 \<longrightarrow> schedulesRetry s"
    using ok by (simp add: schedulesRetry_holds)
  have b: "150 < reconnectCounter s \<longrightarrow> runsDiscovery s"
    using ok by (simp add: runsDiscovery_holds)
  have c: "reconnectCounter s = 0 \<longrightarrow>
            (\<forall>k<151. reconnectCounter (failures k s) = k \<and> schedulesRetry (failures k s))
            \<and> reconnectCounter (failures 151 s) = 151 \<and> runsDiscovery (failures 151 s)"
  proof
    assume z: "reconnectCounter s = 0"
    have f: "k \<le> 151 \<Longrightarrow> handlesOk (failures k s) \<and> reconnectCounter (failures k s) = k" for k
      using failures_counter [OF ok z] by blast
    have "\<forall>k<151. reconnectCounter (failures k s) = k \<and> schedulesRetry (failures k s)"
    proof (intro allI impI)
      fix k :: nat assume "k < 151"
      then have "handlesOk (failures k s)" "reconnectCounter (failures k s) = k" using f [of k] by simp_all
      then show "reconnectCounter (failures k s) = k \<and> schedulesRetry (failures k s)"
        using \<open>k < 151\<close> by (simp add: schedulesRetry_holds)
    qed
    moreover have "reconnectCounter (failures 151 s) = 151 \<and> runsDiscovery (failures 151 s)"
      using f [of 151] by (simp add: runsDiscovery_holds)
    ultimately show "(\<forall>k<151. reconnectCounter (failures k s) = k \<and> schedulesRetry (failures k s))
            \<and> reconnectCounter (failures 151 s) = 151 \<and> runsDiscovery (failures 151 s)" by blast
  qed
  show ?thesis using a b c by blast
qed

text \<open>C1 at the playing instance of the example.\<close>

theorem reconnect_bound_witness:
  "run asciiLowerCase toPlaying (constructor ''living room'' 500) = Inr (after asciiLowerCase toPlaying ''living room'' 500)
   \<and> reconnectCounter (after asciiLowerCase toPlaying ''living room'' 500) = 0
   \<and> schedulesRetry (after asciiLowerCase toPlaying ''living room'' 500)
   \<and> schedulesRetry (failures 149 (after asciiLowerCase toPlaying ''living room'' 500))
   \<and> schedulesRetry (failures 150 (after asciiLowerCase toPlaying ''living room'' 500))
   \<and> reconnectCounter (failures 151 (after asciiLowerCase toPlaying ''living room'' 500)) = 151
   \<and> runsDiscovery (failures 151 (after asciiLowerCase toPlaying ''living room'' 500))"
proof -
  have r: "run asciiLowerCase toPlaying (constructor ''living room'' 500) = Inr (after asciiLowerCase toPlaying ''living room'' 500)"
    by code_simp
  have z: "reconnectCounter (after asciiLowerCase toPlaying ''living room'' 500) = 0"
    by code_simp
  let ?X = "after asciiLowerCase toPlaying ''living room'' 500"
  have t: "(reconnectCounter ?X \<le> 150 \<longrightarrow> schedulesRetry ?X)
       \<and> (150 < reconnectCounter ?X \<longrightarrow> runsDiscovery ?X)
       \<and> (reconnectCounter ?X = 0 \<longrightarrow>
            (\<forall>k<151. reconnectCounter (failures k ?X) = k \<and> schedulesRetry (failures k ?X))
            \<and> reconnectCounter (failures 151 ?X) = 151 \<and> runsDiscovery (failures 151 ?X))"
    using reconnect_bound [OF r] .
  have a: "schedulesRetry ?X"
    using t z by auto
  have c: "\<forall>k<151. reconnectCounter (failures k ?X) = k \<and> schedulesRetry (failures k ?X)"
    and d: "reconnectCounter (failures 151 ?X) = 151" "runsDiscovery (failures 151 ?X)"
    using t z by blast+
  have "(149::nat) < 151" "(150::nat) < 151" by simp_all
  then have "schedulesRetry (failures 149 ?X)" "schedulesRetry (failures 150 ?X)"
    using c by blast+
  then show ?thesis
    using r z a d by blast
qed

subsection \<open>The tracked application session\<close>

lemma setIsCasting_trace: "\<exists>tl. trace (setIsCasting b s) = trace s @ tl"
  by (simp add: setIsCasting_def updateMotionSensor_def prims Let_def split: option.splits)

lemma setIsCasting_nextTimer: "nextTimer s \<le> nextTimer (setIsCasting b s)"
  by (simp add: setIsCasting_def updateMotionSensor_def prims Let_def split: option.splits)

lemma clientDisconnect_trace: "\<exists>tl. trace (clientDisconnect r s) = trace s @ tl"
proof -
  obtain t1 where t1: "trace (setIsCasting False (emit (Log ''Chromecast connection: disconnected'') s))
      = trace (emit (Log ''Chromecast connection: disconnected'') s) @ t1"
    using setIsCasting_trace by blast
  show ?thesis
    unfolding clientDisconnect_def Let_def
    by (simp add: setDefaultProperties_fields detectChromecast_fields emit_fields t1
          setTimeout_def clearTimeout_def)
qed

text \<open>
  C4. A device status with a first application, handled by an instance with a client:
  when the application's \<^verbatim>\<open>sessionId\<close> differs from the tracked one (or none is tracked),
  \<^verbatim>\<open>join\<close> is called with the application whose \<^verbatim>\<open>transportId\<close> has been overwritten
  with its \<^verbatim>\<open>sessionId\<close>, and that application is the tracked one afterwards (unless
  \<^verbatim>\<open>join\<close> throws: the disconnect that follows clears it). When the \<^verbatim>\<open>sessionId\<close> is the
  tracked one, nothing is called and the tracked application stays.
\<close>

theorem session_replaced_iff_identifier_differs:
  assumes "chromecastClient s = Some c"
      and "applications st = AppsList (app # rest)"
      and "processClientStatus (Some st) joinThrows s = Inr s'"
  shows "(if map_option sessionId (castingApplication s) \<noteq> Some (sessionId app)
          then (\<exists>tl. trace s' = trace s @ ClientJoin c (app\<lparr>transportId := Some (sessionId app)\<rparr>) # tl)
               \<and> castingApplication s' =
                   (if joinThrows then None else Some (app\<lparr>transportId := Some (sessionId app)\<rparr>))
          else trace s' = trace s \<and> castingApplication s' = castingApplication s)"
proof (cases "map_option sessionId (castingApplication s) \<noteq> Some (sessionId app)")
  case True
  let ?app = "app\<lparr>transportId := Some (sessionId app)\<rparr>"
  let ?sj = "emit (ClientJoin c ?app) (s\<lparr>castingApplication := Some ?app\<rparr>)"
  let ?s1 = "if joinThrows then clientDisconnect True ?sj else ?sj"
  have d: "Some (sessionId app) \<noteq> map_option sessionId (castingApplication s)"
    using not_sym [OF True] .
  have e: "s' = (case status_volume st of Some (Some l) \<Rightarrow> ?s1\<lparr>volume := l\<rparr> | _ \<Rightarrow> ?s1)"
    using assms d by (auto simp: processClientStatus_def Let_def split: option.splits)
  have tr: "trace s' = trace ?s1" and ca: "castingApplication s' = castingApplication ?s1"
    unfolding e by (simp_all split: option.splits)
  obtain tl where tl: "trace (clientDisconnect True ?sj) = trace ?sj @ tl"
    using clientDisconnect_trace by blast
  have "\<exists>tl. trace ?s1 = trace s @ ClientJoin c ?app # tl"
    using tl by (simp add: emit_def)
  moreover have "castingApplication ?s1 = (if joinThrows then None else Some ?app)"
    by (simp add: clientDisconnect_fields emit_def)
  ultimately show ?thesis
    using True tr ca by simp
next
  case False
  then have d: "Some (sessionId app) = map_option sessionId (castingApplication s)"
    by (simp add: eq_commute)
  have e: "s' = (case status_volume st of Some (Some l) \<Rightarrow> s\<lparr>volume := l\<rparr> | _ \<Rightarrow> s)"
    using assms d by (auto simp: processClientStatus_def Let_def split: option.splits)
  have "trace s' = trace s \<and> castingApplication s' = castingApplication s"
    unfolding e by (simp split: option.splits)
  then show ?thesis using False by simp
qed

text \<open>C4 at the playing instance, which tracks session A: a status with A again, then
  one with B.\<close>

theorem session_replaced_witness:
  "chromecastClient (after asciiLowerCase toPlaying ''living room'' 0) = Some 0
   \<and> processClientStatus (Some \<lparr>applications = AppsList [appA], status_volume = None\<rparr>) False
        (after asciiLowerCase toPlaying ''living room'' 0) = Inr (after asciiLowerCase toPlaying ''living room'' 0)
   \<and> processClientStatus (Some \<lparr>applications = AppsList [appB], status_volume = None\<rparr>) False
        (after asciiLowerCase toPlaying ''living room'' 0)
      = Inr (after asciiLowerCase (toPlaying @ [ClientStatus (Some \<lparr>applications = AppsList [appB], status_volume = None\<rparr>) False])
               ''living room'' 0)
   \<and> (\<exists>tl. trace (after asciiLowerCase (toPlaying @ [ClientStatus (Some \<lparr>applications = AppsList [appB], status_volume = None\<rparr>) False])
               ''living room'' 0)
          = trace (after asciiLowerCase toPlaying ''living room'' 0) @ ClientJoin 0 (appB\<lparr>transportId := Some ''B''\<rparr>) # tl)
   \<and> castingApplication (after asciiLowerCase (toPlaying @ [ClientStatus (Some \<lparr>applications = AppsList [appB], status_volume = None\<rparr>) False])
               ''living room'' 0) = Some (appB\<lparr>transportId := Some ''B''\<rparr>)"
proof -
  let ?s = "after asciiLowerCase toPlaying ''living room'' 0"
  let ?stB = "\<lparr>applications = AppsList [appB], status_volume = None\<rparr>"
  let ?s' = "after asciiLowerCase (toPlaying @ [ClientStatus (Some ?stB) False]) ''living room'' 0"
  have c: "chromecastClient ?s = Some 0" by code_simp
  have a: "processClientStatus (Some \<lparr>applications = AppsList [appA], status_volume = None\<rparr>) False ?s = Inr ?s"
    by code_simp
  have b: "processClientStatus (Some ?stB) False ?s = Inr ?s'" by code_simp
  have l: "applications ?stB = AppsList (appB # [])" by simp
  have d: "map_option sessionId (castingApplication ?s) \<noteq> Some (sessionId appB)" by code_simp
  have sB: "sessionId appB = ''B''" by (simp add: appB_def)
  show ?thesis
    using session_replaced_iff_identifier_differs [OF c l b] a b c d sB by simp
qed

subsection \<open>A discovery match\<close>

lemma clientConnect_fields:
  "trace (clientConnect s) =
     trace s @ [ClientCreate (nextClient s), LogConnecting (chromecastIp s) (chromecastPort s),
                ClientConnect (nextClient s) (chromecastIp s) (chromecastPort s)]"
  "chromecastClient (clientConnect s) = Some (nextClient s)"
  "timers (clientConnect s) = timers s"
  "reconnectCounter (clientConnect s) = reconnectCounter s"
  "reconnectTimer (clientConnect s) = reconnectTimer s"
  "chromecastIp (clientConnect s) = chromecastIp s"
  "chromecastPort (clientConnect s) = chromecastPort s"
  "deviceType (clientConnect s) = deviceType s"
  "deviceId (clientConnect s) = deviceId s"
  "switchOffDelay (clientConnect s) = switchOffDelay s"
  by (simp_all add: clientConnect_def emit_def Let_def)

lemma reachable_handlesOk: "run lc pre (constructor name delay) = Inr s \<Longrightarrow> handlesOk s"
  using handlesOk_constructor handlesOk_run by blast



text \<open>An announcement whose name does not match changes nothing.\<close>

lemma serviceUp_no_match:
  "lc (txt_fn (txtRecord dev)) \<noteq> lc (chromecastDeviceName s) \<Longrightarrow> serviceUp lc dev s = s"
  by (simp add: serviceUp_def)


subsection \<open>A disconnect\<close>

lemma find_snoc_other:
  "fst y \<noteq> h \<Longrightarrow> find (\<lambda>t. fst t = h) (xs @ [y]) = find (\<lambda>t. fst t = h) xs"
  by (induction xs) auto

lemma find_filter_same: "find (\<lambda>t. fst t = h) (filter (\<lambda>t. fst t \<noteq> h) xs) = None"
  by (induction xs) auto

lemma find_filter_other:
  "h' \<noteq> h \<Longrightarrow> find (\<lambda>t. fst t = h) (filter (\<lambda>t. fst t \<noteq> h') xs) = find (\<lambda>t. fst t = h) xs"
  by (induction xs) auto

lemma clientDisconnect_more_fields:
  "volume (clientDisconnect r s) = 0"
  "deviceType (clientDisconnect r s) = None"
  "deviceId (clientDisconnect r s) = None"
  unfolding clientDisconnect_def Let_def
  by (simp_all add: setDefaultProperties_fields detectChromecast_def prims Let_def)

lemma clientDisconnect_closes:
  assumes "chromecastClient s = Some c"
  shows "ClientClose c \<in> set (drop (length (trace s)) (trace (clientDisconnect r s)))"
proof -
  let ?x = "setIsCasting False (emit (Log ''Chromecast connection: disconnected'') s)"
  obtain t1 where t1: "trace ?x = trace (emit (Log ''Chromecast connection: disconnected'') s) @ t1"
    using setIsCasting_trace by blast
  have c: "chromecastClient ?x = Some c"
    using assms by (simp add: setIsCasting_fields emit_fields)
  show ?thesis
    unfolding clientDisconnect_def Let_def
    by (simp add: setDefaultProperties_fields detectChromecast_fields emit_fields t1 c
          setTimeout_def clearTimeout_def)
qed

lemma clientDisconnect_stops_retry:
  assumes "handlesOk s" and "reconnectTimer s = Some h"
  shows "pending h (clientDisconnect r s) = None"
proof -
  let ?x = "setIsCasting False (emit (Log ''Chromecast connection: disconnected'') s)"
  let ?s3 = "setDefaultProperties False True ?x"
  have rx: "reconnectTimer ?x = Some h"
    using assms(2) by (simp add: setIsCasting_fields emit_fields)
  have "h < nextTimer s"
    using assms by (simp add: handlesOk_iff)
  moreover have "nextTimer (emit (Log ''Chromecast connection: disconnected'') s) \<le> nextTimer ?x"
    by (rule setIsCasting_nextTimer)
  ultimately have lt: "h < nextTimer ?s3"
    by (simp add: setDefaultProperties_fields emit_fields)
  have p3: "find (\<lambda>t. fst t = h) (timers ?s3) = None"
    by (simp add: setDefaultProperties_fields rx find_filter_same)
  have r3: "reconnectTimer ?s3 = None"
    by (simp add: setDefaultProperties_fields)
  show ?thesis
    unfolding clientDisconnect_def Let_def pending_def
    using lt p3 r3
    by (simp add: detectChromecast_fields emit_fields setTimeout_def clearTimeout_def find_snoc_other)
qed

lemma clientDisconnect_False_retry:
  assumes "handlesOk s"
  shows "retryTimers (clientDisconnect False s) = []"
  using assms
  by (simp add: clientDisconnect_def Let_def setDefaultProperties_retry handlesOk_setIsCasting)

text \<open>
  C7, as the claim states it, fails: a disconnect leaves the address and the port of a
  connected instance in place, with either reconnect intent.
\<close>

theorem clientDisconnect_keeps_address_example:
  "chromecastIp (clientDisconnect True (after asciiLowerCase toPlaying ''living room'' 0)) = Some ''192.168.1.20''
   \<and> chromecastPort (clientDisconnect True (after asciiLowerCase toPlaying ''living room'' 0)) = Some 8009
   \<and> chromecastIp (clientDisconnect False (after asciiLowerCase toPlaying ''living room'' 0)) = Some ''192.168.1.20''
   \<and> chromecastPort (clientDisconnect False (after asciiLowerCase toPlaying ''living room'' 0)) = Some 8009"
  by code_simp

text \<open>
  C7, amended. A disconnect, with either reconnect intent, in any state a run reaches:
  the casting state is false, the tracked application and media session, the volume, the
  device type and id and the handle of the switch-off timer are cleared, the client (if
  there is one) is closed, and the retry whose handle \<^verbatim>\<open>reconnectTimer\<close> held is no longer
  pending (without reconnect intent no retry is pending at all). The address and the
  port stay as they were: \<^verbatim>\<open>setDefaultProperties\<close> is called with
  \<^verbatim>\<open>resetIpAndPort = false\<close>, and the retry connects to them.
\<close>

theorem clientDisconnect_resets_but_keeps_address:
  assumes "run lc pre (constructor name delay) = Inr s"
  shows "isCastingStatus (clientDisconnect r s) = False
       \<and> castingApplication (clientDisconnect r s) = None
       \<and> castingMedia (clientDisconnect r s) = None
       \<and> volume (clientDisconnect r s) = 0
       \<and> deviceType (clientDisconnect r s) = None
       \<and> deviceId (clientDisconnect r s) = None
       \<and> switchOffDelayTimer (clientDisconnect r s) = None
       \<and> chromecastIp (clientDisconnect r s) = chromecastIp s
       \<and> chromecastPort (clientDisconnect r s) = chromecastPort s
       \<and> chromecastClient (clientDisconnect r s) = chromecastClient s
       \<and> (case chromecastClient s of
             None \<Rightarrow> True
           | Some c \<Rightarrow> ClientClose c \<in> set (drop (length (trace s)) (trace (clientDisconnect r s))))
       \<and> (case reconnectTimer s of
             None \<Rightarrow> True
           | Some h \<Rightarrow> pending h (clientDisconnect r s) = None)
       \<and> retryTimers (clientDisconnect False s) = []"
proof -
  have ok: "handlesOk s" using assms by (rule reachable_handlesOk)
  have a: "case chromecastClient s of
             None \<Rightarrow> True
           | Some c \<Rightarrow> ClientClose c \<in> set (drop (length (trace s)) (trace (clientDisconnect r s)))"
    by (simp add: clientDisconnect_closes split: option.splits)
  have b: "case reconnectTimer s of
             None \<Rightarrow> True
           | Some h \<Rightarrow> pending h (clientDisconnect r s) = None"
    using ok by (simp add: clientDisconnect_stops_retry split: option.splits)
  show ?thesis
    using a b ok
    by (simp add: clientDisconnect_fields clientDisconnect_more_fields clientDisconnect_False_retry)
qed

text \<open>C7 (amended) at an instance whose retry is pending.\<close>

theorem clientDisconnect_witness:
  "run asciiLowerCase (toPlaying @ [ConnectionDisconnect]) (constructor ''living room'' 0)
     = Inr (after asciiLowerCase (toPlaying @ [ConnectionDisconnect]) ''living room'' 0)
   \<and> reconnectTimer (after asciiLowerCase (toPlaying @ [ConnectionDisconnect]) ''living room'' 0) = Some 1
   \<and> pending 1 (after asciiLowerCase (toPlaying @ [ConnectionDisconnect]) ''living room'' 0)
       = Some (1, 2000, ReconnectRetry)
   \<and> pending 1 (clientDisconnect False (after asciiLowerCase (toPlaying @ [ConnectionDisconnect]) ''living room'' 0))
       = None
   \<and> chromecastIp (clientDisconnect False (after asciiLowerCase (toPlaying @ [ConnectionDisconnect]) ''living room'' 0))
       = chromecastIp (after asciiLowerCase (toPlaying @ [ConnectionDisconnect]) ''living room'' 0)
   \<and> retryTimers (clientDisconnect False (after asciiLowerCase (toPlaying @ [ConnectionDisconnect]) ''living room'' 0))
       = []"
proof -
  let ?s = "after asciiLowerCase (toPlaying @ [ConnectionDisconnect]) ''living room'' 0"
  have r: "run asciiLowerCase (toPlaying @ [ConnectionDisconnect]) (constructor ''living room'' 0) = Inr ?s"
    by code_simp
  have t: "reconnectTimer ?s = Some 1" by code_simp
  have p: "pending 1 ?s = Some (1, 2000, ReconnectRetry)" by code_simp
  show ?thesis
    using clientDisconnect_resets_but_keeps_address [OF r, of False] r t p by simp
qed

subsection \<open>The switch-off timer across a disconnect\<close>

lemma orphaned_emit [simp]: "orphaned h t (emit e s) = orphaned h t s"
  by (simp add: orphaned_def pending_def emit_def)

lemma orphaned_setIsCasting: "orphaned h t s \<Longrightarrow> orphaned h t (setIsCasting b s)"
  unfolding orphaned_def pending_def setIsCasting_def updateMotionSensor_def prims Let_def
  by (auto simp: find_snoc_other find_filter_other split: option.splits)

lemma orphaned_setDefaultProperties:
  "orphaned h t s \<Longrightarrow> orphaned h t (setDefaultProperties r b s)"
  unfolding orphaned_def pending_def
  by (auto simp: setDefaultProperties_fields find_filter_other split: option.splits)

lemma orphaned_detectChromecast: "orphaned h t s \<Longrightarrow> orphaned h t (detectChromecast s)"
  unfolding orphaned_def pending_def
  by (auto simp: detectChromecast_fields find_snoc_other)

lemma orphaned_schedule_retry:
  "orphaned h t s \<Longrightarrow>
   orphaned h t ((setTimeout ReconnectRetry 2000 (clearTimeout (reconnectTimer s) s))
                   \<lparr>reconnectTimer := Some (nextTimer (clearTimeout (reconnectTimer s) s))\<rparr>)"
  unfolding orphaned_def pending_def prims
  by (auto simp: find_snoc_other find_filter_other split: option.splits)

lemma orphaned_clientDisconnect: "orphaned h t s \<Longrightarrow> orphaned h t (clientDisconnect r s)"
  unfolding clientDisconnect_def Let_def
  by (simp add: orphaned_schedule_retry orphaned_detectChromecast orphaned_setDefaultProperties
        orphaned_setIsCasting)

lemma orphaned_clientConnect [simp]: "orphaned h t (clientConnect s) = orphaned h t s"
  by (simp add: orphaned_def pending_def clientConnect_def emit_def Let_def)

lemma orphaned_connectCallback [simp]: "orphaned h t (connectCallback l s) = orphaned h t s"
  by (simp add: orphaned_def pending_def connectCallback_def emit_def split: option.splits)

lemma orphaned_serviceUp: "orphaned h t s \<Longrightarrow> orphaned h t (serviceUp lc dev s)"
proof -
  assume a: "orphaned h t s"
  have "orphaned h t (setDefaultProperties True True s)"
    using a by (rule orphaned_setDefaultProperties)
  then have "orphaned h t ((setDefaultProperties True True s)
               \<lparr>chromecastIp := i, chromecastPort := p, deviceType := dt, deviceId := d\<rparr>)" for i p dt d
    by (simp add: orphaned_def pending_def)
  then show ?thesis
    using a by (simp add: serviceUp_def Let_def)
qed

lemma orphaned_processClientStatus:
  "orphaned h t s \<Longrightarrow> processClientStatus status jt s = Inr s' \<Longrightarrow> orphaned h t s'"
proof -
  assume a: "orphaned h t s" and b: "processClientStatus status jt s = Inr s'"
  have upd: "orphaned h t x \<Longrightarrow> orphaned h t (x\<lparr>castingApplication := ca\<rparr>)"
            "orphaned h t x \<Longrightarrow> orphaned h t (x\<lparr>castingMedia := cm\<rparr>)"
            "orphaned h t x \<Longrightarrow> orphaned h t (x\<lparr>volume := v\<rparr>)" for x ca cm v
    by (simp_all add: orphaned_def pending_def)
  show ?thesis
    using a b unfolding processClientStatus_def Let_def
    by (auto split: option.splits applications_field.splits list.splits if_splits
        intro!: upd orphaned_setIsCasting orphaned_clientDisconnect)
qed

lemma orphaned_joinCallback:
  "orphaned h t s \<Longrightarrow> joinCallback m s = Inr s' \<Longrightarrow> orphaned h t s'"
  by (cases m) (auto simp: joinCallback_def orphaned_def pending_def emit_def)

lemma orphaned_processMediaStatus: "orphaned h t s \<Longrightarrow> orphaned h t (processMediaStatus st s)"
  by (simp add: processMediaStatus_def orphaned_setIsCasting split: option.splits)

lemma orphaned_setVolume [simp]: "orphaned h t (setVolume v b s) = orphaned h t s"
  by (simp add: setVolume_def split: option.splits)

lemma orphaned_setCasting: "orphaned h t s \<Longrightarrow> orphaned h t (setCasting on s)"
  by (simp add: setCasting_def Let_def orphaned_setIsCasting split: option.splits)

lemma orphaned_timerFires:
  assumes "orphaned h t s" and "h' \<noteq> h"
  shows "orphaned h t (timerFires h' s)"
proof -
  have f: "orphaned h t (s\<lparr>timers := filter (\<lambda>x. fst x \<noteq> h') (timers s)\<rparr>)"
    using assms by (simp add: orphaned_def pending_def find_filter_other)
  have c: "orphaned h t x \<Longrightarrow> orphaned h t (runCallback cb x)" for x cb
    by (cases cb)
       (simp_all add: runCallback_def reconnectRetry_def discoveryRestart_def updateMotionSensor_def
          orphaned_detectChromecast orphaned_clientDisconnect,
        simp add: orphaned_def pending_def)
  show ?thesis
    using assms(1) f c by (simp add: timerFires_def split: option.splits prod.splits)
qed

lemma orphaned_step:
  "orphaned h t s \<Longrightarrow> i \<noteq> TimerFires h \<Longrightarrow> step lc i s = Inr s' \<Longrightarrow> orphaned h t s'"
  by (cases i)
     (auto simp: step_def clientError_def getStatusCallback_def setVolumeDone_def
        intro: orphaned_serviceUp orphaned_timerFires orphaned_clientDisconnect
          orphaned_processClientStatus orphaned_joinCallback orphaned_processMediaStatus
          orphaned_setCasting)

lemma orphaned_run:
  "orphaned h t s \<Longrightarrow> TimerFires h \<notin> set is \<Longrightarrow> run lc is s = Inr s' \<Longrightarrow> orphaned h t s'"
proof (induction "is" arbitrary: s)
  case Nil
  then show ?case by simp
next
  case (Cons i "is")
  from Cons.prems(3) obtain s1 where s1: "step lc i s = Inr s1" and r: "run lc is s1 = Inr s'"
    by (auto split: sum.splits)
  have "i \<noteq> TimerFires h" "TimerFires h \<notin> set is" using Cons.prems(2) by auto
  then show ?case
    using Cons.IH [of s1] orphaned_step [OF Cons.prems(1) _ s1] r by blast
qed


lemma switchOffDelay_processClientStatus:
  "processClientStatus status jt s = Inr s' \<Longrightarrow> switchOffDelay s' = switchOffDelay s"
  unfolding processClientStatus_def Let_def
  by (auto simp: setIsCasting_fields clientDisconnect_fields emit_fields
      split: option.splits applications_field.splits list.splits if_splits)

lemma switchOffDelay_timerFires: "switchOffDelay (timerFires h s) = switchOffDelay s"
proof -
  have c: "switchOffDelay (runCallback cb x) = switchOffDelay x" for x cb
    by (cases cb)
       (simp_all add: runCallback_def reconnectRetry_def discoveryRestart_def updateMotionSensor_def
          detectChromecast_fields clientDisconnect_fields clientConnect_fields emit_fields)
  show ?thesis
    by (simp add: timerFires_def c split: option.splits prod.splits)
qed

lemma switchOffDelay_step: "step lc i s = Inr s' \<Longrightarrow> switchOffDelay s' = switchOffDelay s"
  by (cases i)
     (auto simp: step_def clientError_def getStatusCallback_def setVolumeDone_def
        serviceUp_def Let_def connectCallback_def joinCallback_def processMediaStatus_def
        setVolume_def setCasting_def
        clientConnect_fields setDefaultProperties_fields clientDisconnect_fields setIsCasting_fields
        switchOffDelay_timerFires switchOffDelay_processClientStatus emit_fields
        split: option.splits if_splits)

lemma switchOffDelay_run: "run lc is s = Inr s' \<Longrightarrow> switchOffDelay s' = switchOffDelay s"
  by (induction "is" arbitrary: s) (auto split: sum.splits dest: switchOffDelay_step)

lemma switchOffDelay_constructor: "switchOffDelay (constructor n d) = d"
  by (simp add: constructor_def detectChromecast_fields setDefaultProperties_fields blank_def)

lemma find_SomeD: "find P xs = Some x \<Longrightarrow> x \<in> set xs \<and> P x"
  by (induction xs) (auto split: if_splits)

lemma find_append_Some: "find P xs = Some x \<Longrightarrow> find P (xs @ ys) = Some x"
  by (induction xs) auto

lemma setIsCasting_False_pending:
  assumes "0 < switchOffDelay s" and "pending h s = Some t"
  shows "pending h (setIsCasting False s) = Some t"
  using assms
  by (simp add: setIsCasting_def updateMotionSensor_def prims Let_def pending_def find_append_Some)

lemma setIsCasting_False_schedules:
  assumes "handlesOk s" and "0 < switchOffDelay s" and "isCastingStatus s"
  shows "pending (nextTimer s) (setIsCasting False s) = Some (nextTimer s, switchOffDelay s, MotionUpdate)
       \<and> switchOffDelayTimer (setIsCasting False s) = Some (nextTimer s)"
proof -
  have "\<forall>t\<in>set (timers s). fst t < nextTimer s"
    using assms(1) by (simp add: handlesOk_iff)
  then show ?thesis
    using assms(2,3)
    by (simp add: setIsCasting_def updateMotionSensor_def prims Let_def pending_def find_fresh)
qed

lemma orphaned_after_disconnect:
  assumes "handlesOk s" and "0 < switchOffDelay s" and "pending h s = Some (h, d, MotionUpdate)"
  shows "orphaned h (h, d, MotionUpdate) (clientDisconnect r s)"
proof -
  let ?T = "(h, d, MotionUpdate)"
  let ?e = "emit (Log ''Chromecast connection: disconnected'') s"
  let ?x = "setIsCasting False ?e"
  let ?s3 = "setDefaultProperties False True ?x"
  have m: "?T \<in> set (timers s)"
    using assms(3) find_SomeD unfolding pending_def by fastforce
  have lt: "h < nextTimer s"
    using assms(1) m by (auto simp: handlesOk_iff)
  have rt: "reconnectTimer s \<noteq> Some h"
    using assms(1) m by (auto simp: handlesOk_iff)
  have pe: "pending h ?e = Some ?T"
    using assms(3) by (simp add: pending_def emit_def)
  have de: "0 < switchOffDelay ?e"
    using assms(2) by (simp add: emit_fields)
  have px: "pending h ?x = Some ?T"
    using setIsCasting_False_pending [OF de pe] .
  have rx: "reconnectTimer ?x \<noteq> Some h"
    using rt by (simp add: setIsCasting_fields emit_fields)
  have "nextTimer ?e \<le> nextTimer ?x"
    by (rule setIsCasting_nextTimer)
  then have lx: "h < nextTimer ?x"
    using lt by (simp add: emit_fields)
  have o3: "orphaned h ?T ?s3"
    using px rx lx unfolding orphaned_def pending_def
    by (auto simp: setDefaultProperties_fields find_filter_other split: option.splits)
  show ?thesis
    unfolding clientDisconnect_def Let_def
    using o3 by (simp add: orphaned_schedule_retry orphaned_detectChromecast)
qed

lemma orphaned_fires:
  assumes "orphaned h (h, d, MotionUpdate) s"
  shows "trace (timerFires h s) = trace s @ [MotionSet (isCastingStatus s), LogMotion (isCastingStatus s)]"
  using assms
  by (simp add: orphaned_def timerFires_def runCallback_def updateMotionSensor_def emit_def)

text \<open>
  C10. With a positive off-delay, in any state a run reaches: the transition of the
  casting state from true to false schedules the update of the motion sensor and stores
  its handle. When such an update is pending under a handle \<open>h\<close> and a disconnect occurs,
  the disconnect sets \<^verbatim>\<open>switchOffDelayTimer\<close> to \<^verbatim>\<open>null\<close> and the update stays pending,
  with its delay, under a handle the instance no longer holds; through whatever happens
  afterwards (short of the timer firing) it stays so, and when it fires it reports the
  casting state of that moment.
\<close>

theorem switch_off_timer_survives_disconnect:
  assumes "run lc pre (constructor name delay) = Inr s"
      and "0 < delay"
      and "pending h s = Some (h, d, MotionUpdate)"
      and "run lc post (clientDisconnect r s) = Inr s'"
      and "TimerFires h \<notin> set post"
  shows "(if isCastingStatus s
          then pending (nextTimer s) (setIsCasting False s) = Some (nextTimer s, delay, MotionUpdate)
               \<and> switchOffDelayTimer (setIsCasting False s) = Some (nextTimer s)
          else setIsCasting False s = s)
       \<and> switchOffDelayTimer (clientDisconnect r s) = None
       \<and> orphaned h (h, d, MotionUpdate) (clientDisconnect r s)
       \<and> orphaned h (h, d, MotionUpdate) s'
       \<and> trace (timerFires h s')
           = trace s' @ [MotionSet (isCastingStatus s'), LogMotion (isCastingStatus s')]"
proof -
  have ok: "handlesOk s" using assms(1) by (rule reachable_handlesOk)
  have dl: "switchOffDelay s = delay"
    using switchOffDelay_run [OF assms(1)] by (simp add: switchOffDelay_constructor)
  have a: "if isCastingStatus s
          then pending (nextTimer s) (setIsCasting False s) = Some (nextTimer s, delay, MotionUpdate)
               \<and> switchOffDelayTimer (setIsCasting False s) = Some (nextTimer s)
          else setIsCasting False s = s"
    using setIsCasting_False_schedules [OF ok] dl assms(2) by simp
  have b: "orphaned h (h, d, MotionUpdate) (clientDisconnect r s)"
    using ok dl assms(2,3) by (simp add: orphaned_after_disconnect)
  have c: "orphaned h (h, d, MotionUpdate) s'"
    using orphaned_run [OF b assms(5) assms(4)] .
  show ?thesis
    using a b c orphaned_fires [OF c] by (simp add: clientDisconnect_fields)
qed

text \<open>
  C10 at the example: paused while playing (the update is pending under handle 1), the
  connection lost, reconnected, playing and paused again. The first update is still
  pending beside the second one, and the instance only holds the handle of the second.
\<close>

theorem switch_off_timer_witness:
  "run asciiLowerCase (toPlaying @ [MediaStatus (Some \<lparr>playerState = Some ''PAUSED''\<rparr>)]) (constructor ''living room'' 500)
     = Inr (after asciiLowerCase (toPlaying @ [MediaStatus (Some \<lparr>playerState = Some ''PAUSED''\<rparr>)]) ''living room'' 500)
   \<and> (0::nat) < 500
   \<and> pending 1 (after asciiLowerCase (toPlaying @ [MediaStatus (Some \<lparr>playerState = Some ''PAUSED''\<rparr>)]) ''living room'' 500)
       = Some (1, 500, MotionUpdate)
   \<and> run asciiLowerCase pausedAgain
        (clientDisconnect True
          (after asciiLowerCase (toPlaying @ [MediaStatus (Some \<lparr>playerState = Some ''PAUSED''\<rparr>)]) ''living room'' 500))
       = Inr (after asciiLowerCase (toPlaying @ [MediaStatus (Some \<lparr>playerState = Some ''PAUSED''\<rparr>),
                                  ConnectionDisconnect] @ pausedAgain) ''living room'' 500)
   \<and> TimerFires 1 \<notin> set pausedAgain
   \<and> orphaned 1 (1, 500, MotionUpdate)
        (after asciiLowerCase (toPlaying @ [MediaStatus (Some \<lparr>playerState = Some ''PAUSED''\<rparr>),
                             ConnectionDisconnect] @ pausedAgain) ''living room'' 500)
   \<and> motionTimers
        (after asciiLowerCase (toPlaying @ [MediaStatus (Some \<lparr>playerState = Some ''PAUSED''\<rparr>),
                             ConnectionDisconnect] @ pausedAgain) ''living room'' 500)
       = [(1, 500, MotionUpdate), (3, 500, MotionUpdate)]
   \<and> switchOffDelayTimer
        (after asciiLowerCase (toPlaying @ [MediaStatus (Some \<lparr>playerState = Some ''PAUSED''\<rparr>),
                             ConnectionDisconnect] @ pausedAgain) ''living room'' 500)
       = Some 3"
proof -
  let ?pre = "toPlaying @ [MediaStatus (Some \<lparr>playerState = Some ''PAUSED''\<rparr>)]"
  let ?s = "after asciiLowerCase ?pre ''living room'' 500"
  let ?s' = "after asciiLowerCase (toPlaying @ [MediaStatus (Some \<lparr>playerState = Some ''PAUSED''\<rparr>),
                             ConnectionDisconnect] @ pausedAgain) ''living room'' 500"
  have h1: "run asciiLowerCase ?pre (constructor ''living room'' 500) = Inr ?s" by code_simp
  have h2: "(0::nat) < 500" by simp
  have h3: "pending 1 ?s = Some (1, 500, MotionUpdate)" by code_simp
  have h4: "run asciiLowerCase pausedAgain (clientDisconnect True ?s) = Inr ?s'" by code_simp
  have h5: "TimerFires 1 \<notin> set pausedAgain" by code_simp
  have m: "motionTimers ?s' = [(1, 500, MotionUpdate), (3, 500, MotionUpdate)]" by code_simp
  have w: "switchOffDelayTimer ?s' = Some 3" by code_simp
  have "orphaned 1 (1, 500, MotionUpdate) ?s'"
    using switch_off_timer_survives_disconnect [OF h1 h2 h3 h4 h5] by blast
  then show ?thesis
    using h1 h2 h3 h4 h5 m w by blast
qed

end
